theory Spec2Isabelle
  imports Main
begin

section \<open>Type expressions\<close>

text \<open>
  Modelled from the spec: the module \<^verbatim>\<open>./nodes\<close> that declares \<^verbatim>\<open>TypeExpression\<close>
  is not part of the sources. The spec describes a tagged value whose variants are
  NativeType (a kind, no name), InferenceRequired (a name) and further variants that
  may or may not carry a name. \<^verbatim>\<open>createNativeTypeSymbol\<close> and \<^verbatim>\<open>createTypeVariable\<close>
  build the first two as object literals with exactly these fields.
\<close>

datatype TypeExpression =
    NativeType string
  | InferenceRequired string
  | OtherExpression string "string option"

text \<open>
  \<^verbatim>\<open>_getTypeExpressionName\<close>: \<^verbatim>\<open>if ("name" in typeExpression) return typeExpression.name;
  return undefined\<close>. The result \<^verbatim>\<open>undefined\<close> is \<open>None\<close>.
\<close>

fun getTypeExpressionName :: "TypeExpression \<Rightarrow> string option" where
  "getTypeExpressionName (NativeType k) = None"
| "getTypeExpressionName (InferenceRequired n) = Some n"
| "getTypeExpressionName (OtherExpression ty n) = n"

section \<open>JavaScript maps and the Substitution class\<close>

text \<open>
  A key handed to a \<^verbatim>\<open>Map\<close> method is a string or a reference to a TypeExpression object.
  An object key is its identity (a number) together with the object's contents.
  The built-in \<^verbatim>\<open>Map\<close> compares keys with SameValueZero: strings by value, objects by
  identity, and a string never equals an object.
\<close>

datatype MapKey = StringKey string | ObjectKey nat TypeExpression

fun sameValueZero :: "MapKey \<Rightarrow> MapKey \<Rightarrow> bool" where
  "sameValueZero (StringKey a) (StringKey b) = (a = b)"
| "sameValueZero (ObjectKey i x) (ObjectKey j y) = (i = j)"
| "sameValueZero (StringKey a) (ObjectKey j y) = False"
| "sameValueZero (ObjectKey i x) (StringKey b) = False"

text \<open>
  A map object: the class it was constructed with (\<^verbatim>\<open>new Map()\<close> or
  \<^verbatim>\<open>new Substitution()\<close>), its own enumerable string-keyed properties (what
  \<^verbatim>\<open>Object.entries\<close> enumerates) and its entries in insertion order (the internal
  slot that \<^verbatim>\<open>set\<close>, \<^verbatim>\<open>get\<close> and \<^verbatim>\<open>has\<close> work on).
\<close>

datatype MapClass = PlainMap | SubstitutionMap

record JSMap =
  map_class :: MapClass
  own_props :: "(string \<times> TypeExpression) list"
  map_data :: "(MapKey \<times> TypeExpression) list"

definition new_Map :: JSMap where
  "new_Map = \<lparr>map_class = PlainMap, own_props = [], map_data = []\<rparr>"

definition new_Substitution :: JSMap where
  "new_Substitution = \<lparr>map_class = SubstitutionMap, own_props = [], map_data = []\<rparr>"

fun data_set :: "MapKey \<Rightarrow> TypeExpression \<Rightarrow> (MapKey \<times> TypeExpression) list
    \<Rightarrow> (MapKey \<times> TypeExpression) list" where
  "data_set k v [] = [(k, v)]"
| "data_set k v ((k', v') # es) =
     (if sameValueZero k' k then (k', v) # es else (k', v') # data_set k v es)"

fun data_get :: "MapKey \<Rightarrow> (MapKey \<times> TypeExpression) list \<Rightarrow> TypeExpression option" where
  "data_get k [] = None"
| "data_get k ((k', v') # es) = (if sameValueZero k' k then Some v' else data_get k es)"

fun data_has :: "MapKey \<Rightarrow> (MapKey \<times> TypeExpression) list \<Rightarrow> bool" where
  "data_has k [] = False"
| "data_has k ((k', v') # es) = (if sameValueZero k' k then True else data_has k es)"

text \<open>The methods of the built-in class, \<^verbatim>\<open>Map.prototype.set/get/has\<close>.\<close>

definition Map_set :: "MapKey \<Rightarrow> TypeExpression \<Rightarrow> JSMap \<Rightarrow> JSMap" where
  "Map_set k v m = m\<lparr>map_data := data_set k v (map_data m)\<rparr>"

definition Map_get :: "MapKey \<Rightarrow> JSMap \<Rightarrow> TypeExpression option" where
  "Map_get k m = data_get k (map_data m)"

definition Map_has :: "MapKey \<Rightarrow> JSMap \<Rightarrow> bool" where
  "Map_has k m = data_has k (map_data m)"

text \<open>
  \<^verbatim>\<open>const finalKey = typeof key !== "string" ? _getTypeExpressionName(key) : key\<close>
  and the test \<^verbatim>\<open>!finalKey\<close>, which holds for \<^verbatim>\<open>undefined\<close> and for the empty string.
\<close>

fun finalKey :: "MapKey \<Rightarrow> string option" where
  "finalKey (StringKey s) = Some s"
| "finalKey (ObjectKey i x) = getTypeExpressionName x"

fun falsy :: "string option \<Rightarrow> bool" where
  "falsy None = True"
| "falsy (Some s) = (s = [])"

text \<open>
  The methods of \<^verbatim>\<open>class Substitution extends Map\<close>. \<open>Substitution_set\<close> returns the
  receiver after the call and the keys written to the console by \<^verbatim>\<open>console.log\<close>;
  it never throws.
\<close>

definition Substitution_set :: "MapKey \<Rightarrow> TypeExpression \<Rightarrow> JSMap \<Rightarrow> JSMap \<times> MapKey list" where
  "Substitution_set key v m =
     (if falsy (finalKey key) then (m, [key])
      else (Map_set (StringKey (the (finalKey key))) v m, []))"

definition Substitution_get :: "MapKey \<Rightarrow> JSMap \<Rightarrow> TypeExpression option" where
  "Substitution_get key m =
     (if falsy (finalKey key) then None
      else Map_get (StringKey (the (finalKey key))) m)"

definition Substitution_has :: "MapKey \<Rightarrow> JSMap \<Rightarrow> bool" where
  "Substitution_has key m =
     (if falsy (finalKey key) then False
      else Map_has (StringKey (the (finalKey key))) m)"

text \<open>
  A method call \<^verbatim>\<open>m.set(k, v)\<close>, \<^verbatim>\<open>m.get(k)\<close>, \<^verbatim>\<open>m.has(k)\<close> runs the method of the
  class the object was constructed with.
\<close>

definition call_set :: "JSMap \<Rightarrow> MapKey \<Rightarrow> TypeExpression \<Rightarrow> JSMap \<times> MapKey list" where
  "call_set m k v =
     (case map_class m of PlainMap \<Rightarrow> (Map_set k v m, []) | SubstitutionMap \<Rightarrow> Substitution_set k v m)"

definition call_get :: "JSMap \<Rightarrow> MapKey \<Rightarrow> TypeExpression option" where
  "call_get m k =
     (case map_class m of PlainMap \<Rightarrow> Map_get k m | SubstitutionMap \<Rightarrow> Substitution_get k m)"

definition call_has :: "JSMap \<Rightarrow> MapKey \<Rightarrow> bool" where
  "call_has m k =
     (case map_class m of PlainMap \<Rightarrow> Map_has k m | SubstitutionMap \<Rightarrow> Substitution_has k m)"

section \<open>Scopes, symbols and the store\<close>

text \<open>
  Scopes are mutable objects that refer to each other (\<^verbatim>\<open>parent\<close>, \<^verbatim>\<open>children\<close>, the
  \<^verbatim>\<open>scope\<close> field of a symbol), so they live in a store: the list of all scopes
  allocated so far, a reference being an index into it.
\<close>

type_synonym addr = nat

record ValueSymbol =
  v_name :: string
  v_type :: TypeExpression
  v_scope :: addr

text \<open>\<^verbatim>\<open>createTypeSymbol\<close> takes \<^verbatim>\<open>type?: TypeExpression\<close>, so a type symbol may hold
  \<^verbatim>\<open>undefined\<close> as its type.\<close>

record TypeSymbol =
  t_name :: string
  t_type :: "TypeExpression option"
  t_scope :: addr

record Scope =
  s_value :: "string \<rightharpoonup> ValueSymbol"
  s_children :: "addr list"
  s_parent :: "addr option"
  s_type :: "string \<rightharpoonup> TypeSymbol"
  s_constraints :: "(TypeExpression \<times> TypeExpression) list"
  s_substitutions :: JSMap

text \<open>The two counters of \<^verbatim>\<open>nameIds\<close>, selected by the prefix.\<close>

datatype Prefix = Prefix_t | Prefix_fn

record State =
  heap :: "Scope list"
  nameIds :: "Prefix \<Rightarrow> nat"

text \<open>The state of a freshly loaded module: no scope, \<^verbatim>\<open>nameIds = { t: 0, fn: 0 }\<close>.\<close>

definition init_state :: State where
  "init_state = \<lparr>heap = [], nameIds = (\<lambda>p. 0)\<rparr>"

subsection \<open>Property tables\<close>

text \<open>
  The tables \<^verbatim>\<open>scope.value\<close> and \<^verbatim>\<open>scope.type\<close> are object literals, so they inherit
  from \<^verbatim>\<open>Object.prototype\<close>. \<^verbatim>\<open>name in table\<close> holds for an own property and for a
  property of \<^verbatim>\<open>Object.prototype\<close>; \<^verbatim>\<open>table[name]\<close> then reads the own property or
  the inherited member.
\<close>

definition Object_prototype_keys :: "string list" where
  "Object_prototype_keys =
     [''constructor'', ''hasOwnProperty'', ''isPrototypeOf'', ''propertyIsEnumerable'',
      ''toLocaleString'', ''toString'', ''valueOf'', ''__proto__'',
      ''__defineGetter__'', ''__defineSetter__'', ''__lookupGetter__'', ''__lookupSetter__'']"

datatype 'a Property = Own 'a | Inherited string

definition js_in :: "string \<Rightarrow> (string \<rightharpoonup> 'a) \<Rightarrow> bool" where
  "js_in name tbl = (tbl name \<noteq> None \<or> name \<in> set Object_prototype_keys)"

definition js_read :: "(string \<rightharpoonup> 'a) \<Rightarrow> string \<Rightarrow> 'a Property option" where
  "js_read tbl name =
     (case tbl name of Some x \<Rightarrow> Some (Own x)
      | None \<Rightarrow> if name \<in> set Object_prototype_keys then Some (Inherited name) else None)"

text \<open>\<^verbatim>\<open>if (exists)\<close>: a symbol and an inherited member (a function or an object) are
  truthy, \<^verbatim>\<open>undefined\<close> is not.\<close>

fun truthy :: "'a Property option \<Rightarrow> bool" where
  "truthy None = False"
| "truthy (Some p) = True"

subsection \<open>Lookup\<close>

text \<open>
  \<^verbatim>\<open>findValueSymbol\<close> and \<^verbatim>\<open>findTypeSymbol\<close> recurse along \<^verbatim>\<open>scope.parent\<close>. The outer
  \<open>option\<close> is \<open>None\<close> when the call does not return (a cyclic parent chain) and for
  an index that is no scope of the store; the inner one is \<^verbatim>\<open>undefined\<close>.
\<close>

partial_function (option) findValueSymbol ::
    "Scope list \<Rightarrow> string \<Rightarrow> addr \<Rightarrow> ValueSymbol Property option option" where
  "findValueSymbol h name scope =
     (if scope < length h then
        (if js_in name (s_value (h ! scope)) then Some (js_read (s_value (h ! scope)) name)
         else (case s_parent (h ! scope) of
                 Some parent \<Rightarrow> findValueSymbol h name parent
               | None \<Rightarrow> Some None))
      else None)"

partial_function (option) findTypeSymbol ::
    "Scope list \<Rightarrow> string \<Rightarrow> addr \<Rightarrow> TypeSymbol Property option option" where
  "findTypeSymbol h name scope =
     (if scope < length h then
        (if js_in name (s_type (h ! scope)) then Some (js_read (s_type (h ! scope)) name)
         else (case s_parent (h ! scope) of
                 Some parent \<Rightarrow> findTypeSymbol h name parent
               | None \<Rightarrow> Some None))
      else None)"

subsection \<open>Creating scopes\<close>

definition createNativeTypeSymbol :: "string \<Rightarrow> addr \<Rightarrow> TypeSymbol" where
  "createNativeTypeSymbol name scope =
     \<lparr>t_name = name, t_type = Some (NativeType name), t_scope = scope\<rparr>"

text \<open>Allocation appends to the store; the new object's reference is the old length.\<close>

definition createRootScope :: "State \<Rightarrow> addr \<times> State" where
  "createRootScope st =
     (let rootScope = length (heap st);
          obj = \<lparr>s_value = Map.empty, s_children = [], s_parent = None, s_type = Map.empty,
                 s_constraints = [], s_substitutions = new_Map\<rparr>;
          obj' = obj\<lparr>s_type := [''string'' \<mapsto> createNativeTypeSymbol ''string'' rootScope,
                                 ''number'' \<mapsto> createNativeTypeSymbol ''number'' rootScope,
                                 ''boolean'' \<mapsto> createNativeTypeSymbol ''boolean'' rootScope]\<rparr>
      in (rootScope, st\<lparr>heap := heap st @ [obj']\<rparr>))"

definition createScope :: "addr option \<Rightarrow> State \<Rightarrow> addr \<times> State" where
  "createScope parent st =
     (let scope = length (heap st);
          obj = \<lparr>s_value = Map.empty, s_children = [], s_parent = parent, s_type = Map.empty,
                 s_constraints = [], s_substitutions = new_Map\<rparr>;
          h = heap st @ [obj];
          h' = (case parent of
                  Some p \<Rightarrow> h[p := (h ! p)\<lparr>s_children := s_children (h ! p) @ [scope]\<rparr>]
                | None \<Rightarrow> h)
      in (scope, st\<lparr>heap := h'\<rparr>))"

subsection \<open>Creating symbols\<close>

datatype error = Error string

definition redeclare_message :: "string \<Rightarrow> string" where
  "redeclare_message name = ''Cannot redeclare variable \"'' @ name @ ''\"''"

text \<open>
  A call that returns gives \<open>Some (r, st')\<close>: \<open>r\<close> is \<open>Inl\<close> of the thrown error or
  \<open>Inr\<close> of the returned value, \<open>st'\<close> the state it leaves. The assignment
  \<^verbatim>\<open>scope.value[name] = symbol\<close> is reached only when \<^verbatim>\<open>name in scope.value\<close> is false,
  so it creates an own property.
\<close>

definition createValueSymbol ::
    "string \<Rightarrow> addr \<Rightarrow> TypeExpression \<Rightarrow> State \<Rightarrow> ((error + ValueSymbol) \<times> State) option" where
  "createValueSymbol name scope type st =
     (case findValueSymbol (heap st) name scope of
        None \<Rightarrow> None
      | Some exists \<Rightarrow>
          if truthy exists then Some (Inl (Error (redeclare_message name)), st)
          else
            let symbol = \<lparr>v_name = name, v_type = type, v_scope = scope\<rparr>;
                h = heap st
            in Some (Inr symbol,
                 st\<lparr>heap := h[scope := (h ! scope)\<lparr>s_value := (s_value (h ! scope))(name \<mapsto> symbol)\<rparr>]\<rparr>))"

definition createTypeSymbol ::
    "string \<Rightarrow> addr \<Rightarrow> TypeExpression option \<Rightarrow> State \<Rightarrow> ((error + TypeSymbol) \<times> State) option" where
  "createTypeSymbol name scope type st =
     (case findTypeSymbol (heap st) name scope of
        None \<Rightarrow> None
      | Some exists \<Rightarrow>
          if truthy exists then Some (Inl (Error (redeclare_message name)), st)
          else
            let symbol = \<lparr>t_name = name, t_type = type, t_scope = scope\<rparr>;
                h = heap st
            in Some (Inr symbol,
                 st\<lparr>heap := h[scope := (h ! scope)\<lparr>s_type := (s_type (h ! scope))(name \<mapsto> symbol)\<rparr>]\<rparr>))"

subsection \<open>Fresh names\<close>

text \<open>
  The counters are JavaScript numbers, that is IEEE-754 doubles. A counter starts at 0
  and only ever has 1 added to it, so it holds a natural number. Up to \<open>2 ^ 53\<close> every
  natural number is a double and the addition is exact; \<open>2 ^ 53 + 1\<close> is no double, and
  the sum computed at \<open>2 ^ 53\<close> rounds back to \<open>2 ^ 53\<close> (ties to even): from there on
  \<^verbatim>\<open>nameIds[prefix] += 1\<close> leaves the counter as it is. A counter therefore never
  exceeds \<open>2 ^ 53\<close>. The template literal renders the integers of this range in decimal.
\<close>

definition number_add_one :: "nat \<Rightarrow> nat" where
  "number_add_one c = (if c < 2 ^ 53 then c + 1 else c)"

fun show_nat :: "nat \<Rightarrow> string" where
  "show_nat n =
     (if n < 10 then [''0123456789'' ! n]
      else show_nat (n div 10) @ [''0123456789'' ! (n mod 10)])"

fun prefix_string :: "Prefix \<Rightarrow> string" where
  "prefix_string Prefix_t = ''t''"
| "prefix_string Prefix_fn = ''fn''"

definition findAvailableName :: "Prefix \<Rightarrow> State \<Rightarrow> string \<times> State" where
  "findAvailableName prefix st =
     (let name = prefix_string prefix @ show_nat (nameIds st prefix)
      in (name, st\<lparr>nameIds := (nameIds st)(prefix := number_add_one (nameIds st prefix))\<rparr>))"

definition createTypeVariable :: "addr \<Rightarrow> State \<Rightarrow> ((error + TypeExpression) \<times> State) option" where
  "createTypeVariable scope st =
     (let (name, st1) = findAvailableName Prefix_t st;
          typeExpr = InferenceRequired name
      in case createTypeSymbol name scope (Some typeExpr) st1 of
           None \<Rightarrow> None
         | Some (Inl e, st2) \<Rightarrow> Some (Inl e, st2)
         | Some (Inr symbol, st2) \<Rightarrow> Some (Inr typeExpr, st2))"

text \<open>\<open>n\<close> successive calls \<^verbatim>\<open>findAvailableName(prefix)\<close>, with the names they return in order.\<close>

fun findAvailableNames :: "nat \<Rightarrow> Prefix \<Rightarrow> State \<Rightarrow> string list \<times> State" where
  "findAvailableNames 0 prefix st = ([], st)"
| "findAvailableNames (Suc n) prefix st =
     (let (name, st1) = findAvailableName prefix st;
          (names, st2) = findAvailableNames n prefix st1
      in (name # names, st2))"

subsection \<open>Using a scope's substitution store\<close>

text \<open>
  The statements \<^verbatim>\<open>scope.substitutions.set(key, value)\<close> and
  \<^verbatim>\<open>scope.substitutions.get(key)\<close> of a caller: the method of the stored object is
  called, and \<^verbatim>\<open>set\<close> updates that object in place.
\<close>

definition substitutions_set :: "addr \<Rightarrow> MapKey \<Rightarrow> TypeExpression \<Rightarrow> State \<Rightarrow> State \<times> MapKey list" where
  "substitutions_set scope key v st =
     (let h = heap st;
          (m, logged) = call_set (s_substitutions (h ! scope)) key v
      in (st\<lparr>heap := h[scope := (h ! scope)\<lparr>s_substitutions := m\<rparr>]\<rparr>, logged))"

definition substitutions_get :: "addr \<Rightarrow> MapKey \<Rightarrow> State \<Rightarrow> TypeExpression option" where
  "substitutions_get scope key st = call_get (s_substitutions (heap st ! scope)) key"

section \<open>Dumping a scope\<close>

text \<open>
  \<^verbatim>\<open>dumpNode\<close> comes from the module \<^verbatim>\<open>./ast\<close>, which is not part of the sources; it is
  the parameter \<open>dumpNode\<close>, applied to a type expression or to \<^verbatim>\<open>undefined\<close>.
  The objects built by \<^verbatim>\<open>Object.fromEntries\<close> are maps from property names.
\<close>

datatype 'd SymbolDump = SymbolDump (d_name: string) (d_symtype: 'd) (d_scope: string)

datatype 'd ScopeDump =
  ScopeDump (d_parent: string)
            (d_value: "string \<rightharpoonup> 'd SymbolDump")
            (d_type: "string \<rightharpoonup> 'd SymbolDump")
            (d_constraints: "('d \<times> 'd) list")
            (d_substitutions: "string \<rightharpoonup> 'd")
            (d_children: "'d ScopeDump list")

text \<open>
  \<^verbatim>\<open>Object.entries(obj)\<close> lists the own enumerable string-keyed properties of \<open>obj\<close>.
  For a map object these are its properties, not the entries stored with \<^verbatim>\<open>set\<close>.
  \<^verbatim>\<open>Object.fromEntries\<close> lets a later pair win over an earlier one with the same key.
\<close>

definition Object_entries :: "JSMap \<Rightarrow> (string \<times> TypeExpression) list" where
  "Object_entries m = own_props m"

definition Object_fromEntries :: "(string \<times> 'a) list \<Rightarrow> (string \<rightharpoonup> 'a)" where
  "Object_fromEntries es = map_of (rev es)"

text \<open>
  \<^verbatim>\<open>dumpScope\<close> on one scope. The recursion follows \<^verbatim>\<open>scope.children\<close>; the first
  argument bounds its depth, and the result is \<open>None\<close> when the bound is reached or an
  index is no scope of the store. For the tables \<^verbatim>\<open>scope.value\<close> and \<^verbatim>\<open>scope.type\<close>,
  \<^verbatim>\<open>Object.fromEntries(Object.entries(table).map(...))\<close> keeps every own key and maps
  the symbol stored under it.
\<close>

fun dumpScope :: "nat \<Rightarrow> (TypeExpression option \<Rightarrow> 'd) \<Rightarrow> Scope list \<Rightarrow> addr \<Rightarrow> 'd ScopeDump option" where
  "dumpScope 0 dumpNode h scope = None"
| "dumpScope (Suc fuel) dumpNode h scope =
     (if scope < length h then
        (let s = h ! scope;
             valueEntries = (\<lambda>name. map_option
               (\<lambda>valueSymbol. SymbolDump (v_name valueSymbol) (dumpNode (Some (v_type valueSymbol))) ''[omitted]'')
               (s_value s name));
             typeEntries = (\<lambda>name. map_option
               (\<lambda>typeSymbol. SymbolDump (t_name typeSymbol) (dumpNode (t_type typeSymbol)) ''[omitted]'')
               (s_type s name));
             substitutionsEntries =
               map (\<lambda>(name, type). (name, dumpNode (Some type))) (Object_entries (s_substitutions s))
         in case those (map (dumpScope fuel dumpNode h) (s_children s)) of
              None \<Rightarrow> None
            | Some children \<Rightarrow>
                Some (ScopeDump
                  (if s_parent s \<noteq> None then ''[omitted]'' else ''[]'')
                  valueEntries
                  typeEntries
                  (map (\<lambda>(left, right). (dumpNode (Some left), dumpNode (Some right))) (s_constraints s))
                  (Object_fromEntries substitutionsEntries)
                  children))
      else None)"

text \<open>\<^verbatim>\<open>dumpScope\<close> on an array of scopes: \<^verbatim>\<open>scope.map((s) => dumpScope(s))\<close>.\<close>

definition dumpScope_array ::
    "nat \<Rightarrow> (TypeExpression option \<Rightarrow> 'd) \<Rightarrow> Scope list \<Rightarrow> addr list \<Rightarrow> 'd ScopeDump list option" where
  "dumpScope_array fuel dumpNode h scopes = those (map (dumpScope fuel dumpNode h) scopes)"

section \<open>Well-formed stores and example states\<close>

text \<open>
  In a store built by \<^verbatim>\<open>createRootScope\<close> and \<^verbatim>\<open>createScope\<close>, the parent of a scope was
  allocated before the scope itself.
\<close>

definition wf_heap :: "Scope list \<Rightarrow> bool" where
  "wf_heap h = (\<forall>a < length h. case s_parent (h ! a) of None \<Rightarrow> True | Some p \<Rightarrow> p < a)"

text \<open>Both counters are in the range that counting up from 0 reaches.\<close>

definition counters_in_range :: "State \<Rightarrow> bool" where
  "counters_in_range st = (nameIds st Prefix_t \<le> 2 ^ 53 \<and> nameIds st Prefix_fn \<le> 2 ^ 53)"

text \<open>
  Likewise every child of a scope was allocated after the scope, and is a scope of the
  store.
\<close>

definition wf_children :: "Scope list \<Rightarrow> bool" where
  "wf_children h = (\<forall>a < length h. \<forall>c \<in> set (s_children (h ! a)). a < c \<and> c < length h)"

text \<open>\<open>encloses h a b\<close>: scope \<open>b\<close> is scope \<open>a\<close> or one of its ancestors.\<close>

inductive encloses :: "Scope list \<Rightarrow> addr \<Rightarrow> addr \<Rightarrow> bool" for h :: "Scope list" where
  self: "a < length h \<Longrightarrow> encloses h a a"
| up: "a < length h \<Longrightarrow> s_parent (h ! a) = Some p \<Longrightarrow> encloses h p b \<Longrightarrow> encloses h a b"

text \<open>Every substitution store in the heap was made by \<^verbatim>\<open>new Map()\<close> and has no own
  properties.\<close>

definition plain_stores :: "Scope list \<Rightarrow> bool" where
  "plain_stores h = (\<forall>a < length h. map_class (s_substitutions (h ! a)) = PlainMap
                                  \<and> own_props (s_substitutions (h ! a)) = [])"

text \<open>The state after \<^verbatim>\<open>root = createRootScope()\<close> in a fresh module; \<open>root\<close> is index 0.\<close>

definition state_root :: State where
  "state_root = snd (createRootScope init_state)"

text \<open>Then \<^verbatim>\<open>a = createScope(root)\<close>; \<open>a\<close> is index 1.\<close>

definition state_child :: State where
  "state_child = snd (createScope (Some 0) state_root)"

text \<open>Then \<^verbatim>\<open>createValueSymbol("x", a, numberType)\<close>.\<close>

definition state_x :: State where
  "state_x = snd (the (createValueSymbol ''x'' 1 (NativeType ''number'') state_child))"

text \<open>After \<^verbatim>\<open>createRootScope()\<close>, the declaration \<^verbatim>\<open>createTypeSymbol("t0", root)\<close>.\<close>

definition state_t0 :: State where
  "state_t0 = snd (the (createTypeSymbol ''t0'' 0 None state_root))"

text \<open>A module in which \<^verbatim>\<open>findAvailableName()\<close> has been called \<open>2 ^ 53\<close> times.\<close>

definition state_exhausted :: State where
  "state_exhausted = init_state\<lparr>nameIds := (nameIds init_state)(Prefix_t := 2 ^ 53)\<rparr>"

text \<open>After \<^verbatim>\<open>createRootScope()\<close>, the statement
  \<^verbatim>\<open>root.substitutions.set("t0", numberType)\<close>.\<close>

definition state_subst :: State where
  "state_subst = fst (substitutions_set 0 (StringKey ''t0'') (NativeType ''number'') state_root)"

section \<open>Auxiliary facts\<close>

declare show_nat.simps [simp del]

subsection \<open>Map entries\<close>

lemma sameValueZero_refl: "sameValueZero k k"
  by (cases k) simp_all

lemma data_get_set_same: "data_get k (data_set k v es) = Some v"
  by (induction es) (auto simp: sameValueZero_refl)

lemma data_has_set_same: "data_has k (data_set k v es)"
  by (induction es) (auto simp: sameValueZero_refl)

subsection \<open>Decimal rendering is injective\<close>

lemma digit_inj:
  assumes "a < 10" "b < 10" "''0123456789'' ! a = ''0123456789'' ! b"
  shows "a = b"
proof -
  have a: "a \<in> {0,1,2,3,4,5,6,7,8,9}" using assms(1) by auto
  have b: "b \<in> {0,1,2,3,4,5,6,7,8,9}" using assms(2) by auto
  from a b assms(3) show ?thesis by auto
qed

lemma show_nat_nonempty: "show_nat n \<noteq> []"
  by (subst show_nat.simps) simp

lemma show_nat_inj: "show_nat m = show_nat n \<Longrightarrow> m = n"
proof (induction m arbitrary: n rule: show_nat.induct)
  case (1 m)
  show ?case
  proof (cases "m < 10")
    case small_m: True
    show ?thesis
    proof (cases "n < 10")
      case True
      with small_m "1.prems" show ?thesis
        by (simp add: show_nat.simps[of m] show_nat.simps[of n] digit_inj)
    next
      case False
      with small_m "1.prems" show_nat_nonempty[of "n div 10"] show ?thesis
        by (simp add: show_nat.simps[of m] show_nat.simps[of n])
    qed
  next
    case big_m: False
    show ?thesis
    proof (cases "n < 10")
      case True
      with big_m "1.prems" show_nat_nonempty[of "m div 10"] show ?thesis
        by (simp add: show_nat.simps[of m] show_nat.simps[of n])
    next
      case False
      with big_m "1.prems" have eq: "show_nat (m div 10) = show_nat (n div 10)"
        and d: "''0123456789'' ! (m mod 10) = ''0123456789'' ! (n mod 10)"
        by (simp_all add: show_nat.simps[of m] show_nat.simps[of n])
      from "1.IH"[OF big_m eq] have q: "m div 10 = n div 10" .
      from d have r: "m mod 10 = n mod 10" by (intro digit_inj) simp_all
      from q r show ?thesis by (metis div_mult_mod_eq)
    qed
  qed
qed

lemma show_nat_0: "show_nat 0 = ''0''"
  by (simp add: show_nat.simps)

subsection \<open>Successive allocations\<close>

lemma upt_0_Suc: "[0..<Suc n] = 0 # map Suc [0..<n]"
  by (metis upt_conv_Cons map_Suc_upt zero_less_Suc)

lemma findAvailableNames_length: "length (fst (findAvailableNames n p st)) = n"
  by (induction n arbitrary: st) (simp_all add: split_beta Let_def)

lemma findAvailableNames_bounded:
  "nameIds st p + n \<le> 2 ^ 53 + 1 \<Longrightarrow>
   fst (findAvailableNames n p st) =
     map (\<lambda>i. prefix_string p @ show_nat (nameIds st p + i)) [0 ..< n]"
proof (induction n arbitrary: st)
  case 0
  show ?case by simp
next
  case (Suc n)
  let ?st1 = "snd (findAvailableName p st)"
  have name: "fst (findAvailableName p st) = prefix_string p @ show_nat (nameIds st p)"
    by (simp add: findAvailableName_def Let_def)
  show ?case
  proof (cases n)
    case 0
    with name show ?thesis by (simp add: split_beta Let_def)
  next
    case (Suc m)
    with Suc.prems have lt: "nameIds st p < 2 ^ 53" by simp
    then have c1: "nameIds ?st1 p = nameIds st p + 1"
      by (simp add: findAvailableName_def Let_def number_add_one_def)
    with Suc.prems have "nameIds ?st1 p + n \<le> 2 ^ 53 + 1" by simp
    from Suc.IH[OF this] c1
    have "fst (findAvailableNames n p ?st1) =
            map (\<lambda>i. prefix_string p @ show_nat (nameIds st p + Suc i)) [0 ..< n]"
      by simp
    with name show ?thesis
      by (simp del: upt_Suc add: upt_0_Suc split_beta Let_def o_def)
  qed
qed

lemma counters_in_range_findAvailableName:
  "counters_in_range st \<Longrightarrow> counters_in_range (snd (findAvailableName p st))"
  by (cases p) (simp_all add: counters_in_range_def findAvailableName_def Let_def number_add_one_def)

lemma counters_in_range_init: "counters_in_range init_state"
  by (simp add: counters_in_range_def init_state_def)

lemma counters_in_range_createTypeVariable:
  assumes "counters_in_range st" and "createTypeVariable scope st = Some (r, st')"
  shows "counters_in_range st'"
proof -
  from assms(2) have "nameIds st' = nameIds (snd (findAvailableName Prefix_t st))"
    by (auto simp: createTypeVariable_def createTypeSymbol_def Let_def split_beta
             split: option.splits sum.splits if_splits)
  with counters_in_range_findAvailableName[OF assms(1), of Prefix_t] show ?thesis
    by (simp add: counters_in_range_def)
qed

lemma names_distinct: "distinct (map (\<lambda>i. prefix_string p @ show_nat (c + i)) [a ..< b])"
  by (auto simp add: distinct_map inj_on_def dest: show_nat_inj)

subsection \<open>Lookup of an own type symbol\<close>

lemma findTypeSymbol_in_store: "findTypeSymbol h name scope = Some r \<Longrightarrow> scope < length h"
  by (subst (asm) findTypeSymbol.simps) (simp split: if_splits)

lemma findTypeSymbol_own:
  "scope < length h \<Longrightarrow> s_type (h ! scope) name = Some x \<Longrightarrow>
   findTypeSymbol h name scope = Some (Some (Own x))"
  by (subst findTypeSymbol.simps) (simp add: js_in_def js_read_def)

subsection \<open>The example states, evaluated\<close>

lemma state_root_eq:
  "state_root = \<lparr>heap = [\<lparr>s_value = Map.empty, s_children = [], s_parent = None,
      s_type = [''string'' \<mapsto> createNativeTypeSymbol ''string'' 0,
                ''number'' \<mapsto> createNativeTypeSymbol ''number'' 0,
                ''boolean'' \<mapsto> createNativeTypeSymbol ''boolean'' 0],
      s_constraints = [], s_substitutions = new_Map\<rparr>],
    nameIds = (\<lambda>p. 0)\<rparr>"
  by (simp add: state_root_def createRootScope_def init_state_def Let_def)

lemma state_child_eq:
  "state_child = \<lparr>heap = [\<lparr>s_value = Map.empty, s_children = [1], s_parent = None,
      s_type = [''string'' \<mapsto> createNativeTypeSymbol ''string'' 0,
                ''number'' \<mapsto> createNativeTypeSymbol ''number'' 0,
                ''boolean'' \<mapsto> createNativeTypeSymbol ''boolean'' 0],
      s_constraints = [], s_substitutions = new_Map\<rparr>,
     \<lparr>s_value = Map.empty, s_children = [], s_parent = Some 0, s_type = Map.empty,
      s_constraints = [], s_substitutions = new_Map\<rparr>],
    nameIds = (\<lambda>p. 0)\<rparr>"
  by (simp add: state_child_def state_root_eq createScope_def Let_def)

lemma find_x_child: "findValueSymbol (heap state_child) ''x'' 1 = Some None"
  by (simp add: state_child_eq findValueSymbol.simps js_in_def Object_prototype_keys_def)

lemma state_x_eq:
  "state_x = \<lparr>heap = [\<lparr>s_value = Map.empty, s_children = [1], s_parent = None,
      s_type = [''string'' \<mapsto> createNativeTypeSymbol ''string'' 0,
                ''number'' \<mapsto> createNativeTypeSymbol ''number'' 0,
                ''boolean'' \<mapsto> createNativeTypeSymbol ''boolean'' 0],
      s_constraints = [], s_substitutions = new_Map\<rparr>,
     \<lparr>s_value = [''x'' \<mapsto> \<lparr>v_name = ''x'', v_type = NativeType ''number'', v_scope = 1\<rparr>],
      s_children = [], s_parent = Some 0, s_type = Map.empty,
      s_constraints = [], s_substitutions = new_Map\<rparr>],
    nameIds = (\<lambda>p. 0)\<rparr>"
  unfolding state_x_def createValueSymbol_def find_x_child
  by (simp add: Let_def state_child_eq)

lemma find_t0_root: "findTypeSymbol (heap state_root) ''t0'' 0 = Some None"
  by (simp add: state_root_eq findTypeSymbol.simps js_in_def Object_prototype_keys_def)

lemma state_t0_eq:
  "state_t0 = \<lparr>heap = [\<lparr>s_value = Map.empty, s_children = [], s_parent = None,
      s_type = [''string'' \<mapsto> createNativeTypeSymbol ''string'' 0,
                ''number'' \<mapsto> createNativeTypeSymbol ''number'' 0,
                ''boolean'' \<mapsto> createNativeTypeSymbol ''boolean'' 0,
                ''t0'' \<mapsto> \<lparr>t_name = ''t0'', t_type = None, t_scope = 0\<rparr>],
      s_constraints = [], s_substitutions = new_Map\<rparr>],
    nameIds = (\<lambda>p. 0)\<rparr>"
  unfolding state_t0_def createTypeSymbol_def find_t0_root
  by (simp add: Let_def state_root_eq)

lemma state_subst_eq:
  "state_subst = \<lparr>heap = [\<lparr>s_value = Map.empty, s_children = [], s_parent = None,
      s_type = [''string'' \<mapsto> createNativeTypeSymbol ''string'' 0,
                ''number'' \<mapsto> createNativeTypeSymbol ''number'' 0,
                ''boolean'' \<mapsto> createNativeTypeSymbol ''boolean'' 0],
      s_constraints = [],
      s_substitutions = \<lparr>map_class = PlainMap, own_props = [],
                          map_data = [(StringKey ''t0'', NativeType ''number'')]\<rparr>\<rparr>],
    nameIds = (\<lambda>p. 0)\<rparr>"
  by (simp add: state_subst_def state_root_eq substitutions_set_def call_set_def new_Map_def
        Map_set_def)

section \<open>Lookup and declaration on well-formed stores\<close>

text \<open>
  On a well-formed store the lookup returns from every scope. For a name that
  \<^verbatim>\<open>Object.prototype\<close> does not define, it finds something exactly when the scope or an
  ancestor declares the name, what it finds is a symbol declared by the scope or an
  ancestor, and symbol creation throws exactly in that case.
\<close>

lemma wf_heap_parent: "wf_heap h \<Longrightarrow> a < length h \<Longrightarrow> s_parent (h ! a) = Some p \<Longrightarrow> p < a"
  by (auto simp: wf_heap_def split: option.splits)

lemma encloses_cases:
  "encloses h a b \<longleftrightarrow> a < length h \<and> (b = a \<or> (\<exists>p. s_parent (h ! a) = Some p \<and> encloses h p b))"
  by (auto elim: encloses.cases intro: encloses.intros)

lemma findValueSymbol_ordinary_name:
  assumes "scope < length h" and "name \<notin> set Object_prototype_keys"
  shows "findValueSymbol h name scope =
     (case s_value (h ! scope) name of
        Some x \<Rightarrow> Some (Some (Own x))
      | None \<Rightarrow> (case s_parent (h ! scope) of
                   Some parent \<Rightarrow> findValueSymbol h name parent
                 | None \<Rightarrow> Some None))"
  using assms
  by (subst findValueSymbol.simps) (simp add: js_in_def js_read_def split: option.splits)

lemma findTypeSymbol_ordinary_name:
  assumes "scope < length h" and "name \<notin> set Object_prototype_keys"
  shows "findTypeSymbol h name scope =
     (case s_type (h ! scope) name of
        Some x \<Rightarrow> Some (Some (Own x))
      | None \<Rightarrow> (case s_parent (h ! scope) of
                   Some parent \<Rightarrow> findTypeSymbol h name parent
                 | None \<Rightarrow> Some None))"
  using assms
  by (subst findTypeSymbol.simps) (simp add: js_in_def js_read_def split: option.splits)

lemma findValueSymbol_total:
  assumes "wf_heap h"
  shows "a < length h \<Longrightarrow> \<exists>r. findValueSymbol h name a = Some r"
proof (induction a rule: less_induct)
  case (less a)
  show ?case
  proof (cases "s_parent (h ! a)")
    case None
    with less.prems show ?thesis by (subst findValueSymbol.simps) simp
  next
    case (Some p)
    with assms less.prems have "p < a" by (auto dest: wf_heap_parent)
    with less.IH[of p] less.prems obtain r where "findValueSymbol h name p = Some r" by auto
    with Some less.prems show ?thesis by (subst findValueSymbol.simps) simp
  qed
qed

lemma findValueSymbol_truthy_iff:
  assumes "wf_heap h" and "name \<notin> set Object_prototype_keys"
  shows "a < length h \<Longrightarrow>
         \<exists>r. findValueSymbol h name a = Some r \<and>
             (truthy r \<longleftrightarrow> (\<exists>b. encloses h a b \<and> s_value (h ! b) name \<noteq> None))"
proof (induction a rule: less_induct)
  case (less a)
  show ?case
  proof (cases "s_value (h ! a) name")
    case (Some x)
    with less.prems have "findValueSymbol h name a = Some (Some (Own x))"
      by (subst findValueSymbol.simps) (simp add: js_in_def js_read_def)
    moreover from less.prems Some have "\<exists>b. encloses h a b \<and> s_value (h ! b) name \<noteq> None"
      by (auto intro: encloses.self)
    ultimately show ?thesis by simp
  next
    case own: None
    show ?thesis
    proof (cases "s_parent (h ! a)")
      case None
      with own less.prems assms(2) have "findValueSymbol h name a = Some None"
        by (subst findValueSymbol.simps) (simp add: js_in_def)
      moreover from own None have "\<not> (\<exists>b. encloses h a b \<and> s_value (h ! b) name \<noteq> None)"
        by (subst encloses_cases) auto
      ultimately show ?thesis by simp
    next
      case (Some p)
      with assms less.prems have "p < a" by (auto dest: wf_heap_parent)
      with less.IH[of p] less.prems obtain r where r: "findValueSymbol h name p = Some r"
        and t: "truthy r \<longleftrightarrow> (\<exists>b. encloses h p b \<and> s_value (h ! b) name \<noteq> None)" by auto
      from own Some less.prems assms(2) r have "findValueSymbol h name a = Some r"
        by (subst findValueSymbol.simps) (simp add: js_in_def)
      moreover from own Some less.prems
      have "(\<exists>b. encloses h a b \<and> s_value (h ! b) name \<noteq> None)
            \<longleftrightarrow> (\<exists>b. encloses h p b \<and> s_value (h ! b) name \<noteq> None)"
        by (subst encloses_cases) auto
      ultimately show ?thesis using t by simp
    qed
  qed
qed

lemma findValueSymbol_result_enclosing:
  assumes "findValueSymbol h name a = Some (Some (Own x))"
  shows "\<exists>b. encloses h a b \<and> s_value (h ! b) name = Some x"
proof -
  have "\<forall>x. r = Some (Own x) \<longrightarrow> (\<exists>b. encloses h a b \<and> s_value (h ! b) name = Some x)"
    if "findValueSymbol h name a = Some r" for r
  proof (rule findValueSymbol.raw_induct[where
        P="\<lambda>h name a r. \<forall>x. r = Some (Own x) \<longrightarrow>
             (\<exists>b. encloses h a b \<and> s_value (h ! b) name = Some x)", OF _ that])
    fix f :: "Scope list \<Rightarrow> string \<Rightarrow> addr \<Rightarrow> ValueSymbol Property option option"
    fix h name a r
    assume IH: "\<And>h name a r. f h name a = Some r \<Longrightarrow>
        \<forall>x. r = Some (Own x) \<longrightarrow> (\<exists>b. encloses h a b \<and> s_value (h ! b) name = Some x)"
    assume body: "(if a < length h then
        (if js_in name (s_value (h ! a)) then Some (js_read (s_value (h ! a)) name)
         else (case s_parent (h ! a) of Some parent \<Rightarrow> f h name parent | None \<Rightarrow> Some None))
      else None) = Some r"
    show "\<forall>x. r = Some (Own x) \<longrightarrow> (\<exists>b. encloses h a b \<and> s_value (h ! b) name = Some x)"
    proof (intro allI impI)
      fix x assume rx: "r = Some (Own x)"
      from body have lt: "a < length h" by (simp split: if_splits)
      show "\<exists>b. encloses h a b \<and> s_value (h ! b) name = Some x"
      proof (cases "js_in name (s_value (h ! a))")
        case True
        with body lt rx have "s_value (h ! a) name = Some x"
          by (auto simp: js_read_def split: option.splits if_splits)
        with lt show ?thesis by (auto intro: encloses.self)
      next
        case False
        with body lt rx obtain p where p: "s_parent (h ! a) = Some p" and fp: "f h name p = Some r"
          by (auto split: option.splits)
        from IH[OF fp] rx obtain b where "encloses h p b" "s_value (h ! b) name = Some x" by auto
        with lt p show ?thesis by (auto intro: encloses.up)
      qed
    qed
  qed
  from this[OF assms] show ?thesis by simp
qed


lemma createValueSymbol_throws_iff:
  assumes "wf_heap (heap st)" and "scope < length (heap st)"
    and "name \<notin> set Object_prototype_keys"
  shows "createValueSymbol name scope type st =
     (if \<exists>b. encloses (heap st) scope b \<and> s_value (heap st ! b) name \<noteq> None
      then Some (Inl (Error (redeclare_message name)), st)
      else Some (Inr \<lparr>v_name = name, v_type = type, v_scope = scope\<rparr>,
             st\<lparr>heap := (heap st)[scope := (heap st ! scope)
               \<lparr>s_value := (s_value (heap st ! scope))
                   (name \<mapsto> \<lparr>v_name = name, v_type = type, v_scope = scope\<rparr>)\<rparr>]\<rparr>))"
proof -
  from findValueSymbol_truthy_iff[OF assms(1,3,2)]
  obtain r where r: "findValueSymbol (heap st) name scope = Some r"
    and t: "truthy r \<longleftrightarrow> (\<exists>b. encloses (heap st) scope b \<and> s_value (heap st ! b) name \<noteq> None)"
    by blast
  show ?thesis
    unfolding createValueSymbol_def r using t by (simp add: Let_def)
qed

lemma findTypeSymbol_total:
  assumes "wf_heap h"
  shows "a < length h \<Longrightarrow> \<exists>r. findTypeSymbol h name a = Some r"
proof (induction a rule: less_induct)
  case (less a)
  show ?case
  proof (cases "s_parent (h ! a)")
    case None
    with less.prems show ?thesis by (subst findTypeSymbol.simps) simp
  next
    case (Some p)
    with assms less.prems have "p < a" by (auto dest: wf_heap_parent)
    with less.IH[of p] less.prems obtain r where "findTypeSymbol h name p = Some r" by auto
    with Some less.prems show ?thesis by (subst findTypeSymbol.simps) simp
  qed
qed

lemma findTypeSymbol_truthy_iff:
  assumes "wf_heap h" and "name \<notin> set Object_prototype_keys"
  shows "a < length h \<Longrightarrow>
         \<exists>r. findTypeSymbol h name a = Some r \<and>
             (truthy r \<longleftrightarrow> (\<exists>b. encloses h a b \<and> s_type (h ! b) name \<noteq> None))"
proof (induction a rule: less_induct)
  case (less a)
  show ?case
  proof (cases "s_type (h ! a) name")
    case (Some x)
    with less.prems have "findTypeSymbol h name a = Some (Some (Own x))"
      by (subst findTypeSymbol.simps) (simp add: js_in_def js_read_def)
    moreover from less.prems Some have "\<exists>b. encloses h a b \<and> s_type (h ! b) name \<noteq> None"
      by (auto intro: encloses.self)
    ultimately show ?thesis by simp
  next
    case own: None
    show ?thesis
    proof (cases "s_parent (h ! a)")
      case None
      with own less.prems assms(2) have "findTypeSymbol h name a = Some None"
        by (subst findTypeSymbol.simps) (simp add: js_in_def)
      moreover from own None have "\<not> (\<exists>b. encloses h a b \<and> s_type (h ! b) name \<noteq> None)"
        by (subst encloses_cases) auto
      ultimately show ?thesis by simp
    next
      case (Some p)
      with assms less.prems have "p < a" by (auto dest: wf_heap_parent)
      with less.IH[of p] less.prems obtain r where r: "findTypeSymbol h name p = Some r"
        and t: "truthy r \<longleftrightarrow> (\<exists>b. encloses h p b \<and> s_type (h ! b) name \<noteq> None)" by auto
      from own Some less.prems assms(2) r have "findTypeSymbol h name a = Some r"
        by (subst findTypeSymbol.simps) (simp add: js_in_def)
      moreover from own Some less.prems
      have "(\<exists>b. encloses h a b \<and> s_type (h ! b) name \<noteq> None)
            \<longleftrightarrow> (\<exists>b. encloses h p b \<and> s_type (h ! b) name \<noteq> None)"
        by (subst encloses_cases) auto
      ultimately show ?thesis using t by simp
    qed
  qed
qed

lemma findTypeSymbol_result_enclosing:
  assumes "findTypeSymbol h name a = Some (Some (Own x))"
  shows "\<exists>b. encloses h a b \<and> s_type (h ! b) name = Some x"
proof -
  have "\<forall>x. r = Some (Own x) \<longrightarrow> (\<exists>b. encloses h a b \<and> s_type (h ! b) name = Some x)"
    if "findTypeSymbol h name a = Some r" for r
  proof (rule findTypeSymbol.raw_induct[where
        P="\<lambda>h name a r. \<forall>x. r = Some (Own x) \<longrightarrow>
             (\<exists>b. encloses h a b \<and> s_type (h ! b) name = Some x)", OF _ that])
    fix f :: "Scope list \<Rightarrow> string \<Rightarrow> addr \<Rightarrow> TypeSymbol Property option option"
    fix h name a r
    assume IH: "\<And>h name a r. f h name a = Some r \<Longrightarrow>
        \<forall>x. r = Some (Own x) \<longrightarrow> (\<exists>b. encloses h a b \<and> s_type (h ! b) name = Some x)"
    assume body: "(if a < length h then
        (if js_in name (s_type (h ! a)) then Some (js_read (s_type (h ! a)) name)
         else (case s_parent (h ! a) of Some parent \<Rightarrow> f h name parent | None \<Rightarrow> Some None))
      else None) = Some r"
    show "\<forall>x. r = Some (Own x) \<longrightarrow> (\<exists>b. encloses h a b \<and> s_type (h ! b) name = Some x)"
    proof (intro allI impI)
      fix x assume rx: "r = Some (Own x)"
      from body have lt: "a < length h" by (simp split: if_splits)
      show "\<exists>b. encloses h a b \<and> s_type (h ! b) name = Some x"
      proof (cases "js_in name (s_type (h ! a))")
        case True
        with body lt rx have "s_type (h ! a) name = Some x"
          by (auto simp: js_read_def split: option.splits if_splits)
        with lt show ?thesis by (auto intro: encloses.self)
      next
        case False
        with body lt rx obtain p where p: "s_parent (h ! a) = Some p" and fp: "f h name p = Some r"
          by (auto split: option.splits)
        from IH[OF fp] rx obtain b where "encloses h p b" "s_type (h ! b) name = Some x" by auto
        with lt p show ?thesis by (auto intro: encloses.up)
      qed
    qed
  qed
  from this[OF assms] show ?thesis by simp
qed

lemma createTypeSymbol_throws_iff:
  assumes "wf_heap (heap st)" and "scope < length (heap st)"
    and "name \<notin> set Object_prototype_keys"
  shows "createTypeSymbol name scope type st =
     (if \<exists>b. encloses (heap st) scope b \<and> s_type (heap st ! b) name \<noteq> None
      then Some (Inl (Error (redeclare_message name)), st)
      else Some (Inr \<lparr>t_name = name, t_type = type, t_scope = scope\<rparr>,
             st\<lparr>heap := (heap st)[scope := (heap st ! scope)
               \<lparr>s_type := (s_type (heap st ! scope))
                   (name \<mapsto> \<lparr>t_name = name, t_type = type, t_scope = scope\<rparr>)\<rparr>]\<rparr>))"
proof -
  from findTypeSymbol_truthy_iff[OF assms(1,3,2)]
  obtain r where r: "findTypeSymbol (heap st) name scope = Some r"
    and t: "truthy r \<longleftrightarrow> (\<exists>b. encloses (heap st) scope b \<and> s_type (heap st ! b) name \<noteq> None)"
    by blast
  show ?thesis
    unfolding createTypeSymbol_def r using t by (simp add: Let_def)
qed

subsection \<open>The operations keep the store well formed\<close>

lemma wf_heap_empty: "wf_heap (heap init_state)"
  by (simp add: wf_heap_def init_state_def)

lemma wf_heap_createRootScope:
  "wf_heap (heap st) \<Longrightarrow> wf_heap (heap (snd (createRootScope st)))"
  by (auto simp: wf_heap_def createRootScope_def Let_def nth_append split: option.splits)

lemma wf_heap_createScope:
  assumes "wf_heap (heap st)" and "\<And>p. parent = Some p \<Longrightarrow> p < length (heap st)"
  shows "wf_heap (heap (snd (createScope parent st)))"
proof (cases parent)
  case None
  with assms(1) show ?thesis
    by (auto simp: wf_heap_def createScope_def Let_def nth_append split: option.splits)
next
  case (Some p)
  with assms(2) have p: "p < length (heap st)" by simp
  show ?thesis
    unfolding wf_heap_def
  proof (intro allI impI)
    fix a assume a: "a < length (heap (snd (createScope parent st)))"
    show "case s_parent (heap (snd (createScope parent st)) ! a) of None \<Rightarrow> True | Some q \<Rightarrow> q < a"
    proof (cases "a < length (heap st)")
      case True
      with assms(1) have "case s_parent (heap st ! a) of None \<Rightarrow> True | Some q \<Rightarrow> q < a"
        by (simp add: wf_heap_def)
      with True Some p show ?thesis
        by (cases "a = p") (simp_all add: createScope_def Let_def nth_append nth_list_update)
    next
      case False
      with a Some have "a = length (heap st)" by (simp add: createScope_def Let_def)
      with Some p show ?thesis
        by (simp add: createScope_def Let_def nth_append nth_list_update)
    qed
  qed
qed

lemma wf_heap_update_same_parent:
  assumes "wf_heap h" and "s_parent s' = s_parent (h ! a)"
  shows "wf_heap (h[a := s'])"
  unfolding wf_heap_def
proof (intro allI impI)
  fix b assume "b < length (h[a := s'])"
  then have b: "b < length h" by simp
  with assms(1) have "case s_parent (h ! b) of None \<Rightarrow> True | Some p \<Rightarrow> p < b"
    by (simp add: wf_heap_def)
  with b assms(2) show "case s_parent (h[a := s'] ! b) of None \<Rightarrow> True | Some p \<Rightarrow> p < b"
    by (cases "b = a") simp_all
qed

lemma wf_heap_createValueSymbol:
  "wf_heap (heap st) \<Longrightarrow> createValueSymbol name scope type st = Some (r, st') \<Longrightarrow>
   wf_heap (heap st')"
  by (auto simp: createValueSymbol_def Let_def wf_heap_update_same_parent
           split: option.splits if_splits)

lemma wf_heap_createTypeSymbol:
  "wf_heap (heap st) \<Longrightarrow> createTypeSymbol name scope type st = Some (r, st') \<Longrightarrow>
   wf_heap (heap st')"
  by (auto simp: createTypeSymbol_def Let_def wf_heap_update_same_parent
           split: option.splits if_splits)

lemma wf_heap_createTypeVariable:
  assumes "wf_heap (heap st)" and "createTypeVariable scope st = Some (r, st')"
  shows "wf_heap (heap st')"
proof -
  let ?st1 = "snd (findAvailableName Prefix_t st)"
  have h1: "heap ?st1 = heap st" by (simp add: findAvailableName_def Let_def)
  from assms(2) obtain r' where
    "createTypeSymbol (fst (findAvailableName Prefix_t st)) scope
       (Some (InferenceRequired (fst (findAvailableName Prefix_t st)))) ?st1 = Some (r', st')"
    by (auto simp: createTypeVariable_def Let_def split_beta split: option.splits sum.splits)
  with assms(1) h1 show ?thesis by (auto dest: wf_heap_createTypeSymbol[rotated])
qed

lemma wf_heap_substitutions_set:
  "wf_heap (heap st) \<Longrightarrow> wf_heap (heap (fst (substitutions_set scope key v st)))"
  by (simp add: substitutions_set_def Let_def split_beta wf_heap_update_same_parent)

subsection \<open>The stores of created scopes are plain maps\<close>

lemma plain_stores_init: "plain_stores (heap init_state)"
  by (simp add: plain_stores_def init_state_def)

lemma plain_stores_createRootScope:
  "plain_stores (heap st) \<Longrightarrow> plain_stores (heap (snd (createRootScope st)))"
  by (auto simp: plain_stores_def createRootScope_def Let_def nth_append new_Map_def)

lemma plain_stores_update:
  assumes "plain_stores h" and "s_substitutions s' = s_substitutions (h ! a)"
  shows "plain_stores (h[a := s'])"
  unfolding plain_stores_def
proof (intro allI impI)
  fix b assume "b < length (h[a := s'])"
  then have b: "b < length h" by simp
  with assms show "map_class (s_substitutions (h[a := s'] ! b)) = PlainMap
      \<and> own_props (s_substitutions (h[a := s'] ! b)) = []"
    by (cases "b = a") (simp_all add: plain_stores_def)
qed

lemma plain_stores_createScope:
  assumes "plain_stores (heap st)"
  shows "plain_stores (heap (snd (createScope parent st)))"
proof -
  let ?obj = "\<lparr>s_value = Map.empty, s_children = [], s_parent = parent, s_type = Map.empty,
               s_constraints = [], s_substitutions = new_Map\<rparr>"
  from assms have h: "plain_stores (heap st @ [?obj])"
    by (auto simp: plain_stores_def nth_append new_Map_def)
  show ?thesis
  proof (cases parent)
    case None
    with h show ?thesis by (simp add: createScope_def Let_def)
  next
    case (Some p)
    with plain_stores_update[OF h, of _ p] show ?thesis by (simp add: createScope_def Let_def)
  qed
qed

lemma plain_stores_createValueSymbol:
  "plain_stores (heap st) \<Longrightarrow> createValueSymbol name scope type st = Some (r, st') \<Longrightarrow>
   plain_stores (heap st')"
  by (auto simp: createValueSymbol_def Let_def plain_stores_update split: option.splits if_splits)

lemma plain_stores_createTypeSymbol:
  "plain_stores (heap st) \<Longrightarrow> createTypeSymbol name scope type st = Some (r, st') \<Longrightarrow>
   plain_stores (heap st')"
  by (auto simp: createTypeSymbol_def Let_def plain_stores_update split: option.splits if_splits)

lemma plain_stores_substitutions_set:
  assumes "plain_stores (heap st)"
  shows "plain_stores (heap (fst (substitutions_set scope key v st)))"
  unfolding plain_stores_def
proof (intro allI impI)
  fix a assume "a < length (heap (fst (substitutions_set scope key v st)))"
  then have a: "a < length (heap st)" by (simp add: substitutions_set_def Let_def split_beta)
  with assms have "map_class (s_substitutions (heap st ! a)) = PlainMap"
    and "own_props (s_substitutions (heap st ! a)) = []"
    by (simp_all add: plain_stores_def)
  with a show "map_class (s_substitutions (heap (fst (substitutions_set scope key v st)) ! a)) = PlainMap
      \<and> own_props (s_substitutions (heap (fst (substitutions_set scope key v st)) ! a)) = []"
    by (cases "a = scope")
       (simp_all add: substitutions_set_def Let_def split_beta call_set_def Map_set_def)
qed

lemma sameValueZero_object_not_string:
  "sameValueZero a (ObjectKey i x) \<Longrightarrow> \<not> sameValueZero a (StringKey n)"
  by (cases a) simp_all

lemma plain_store_object_key_not_normalized:
  assumes "plain_stores (heap st)" and "scope < length (heap st)"
    and "substitutions_get scope (StringKey n) st = None"
  shows "substitutions_get scope (StringKey n)
           (fst (substitutions_set scope (ObjectKey i x) v st)) = None"
proof -
  have "data_get (StringKey n) (data_set (ObjectKey i x) v es) = data_get (StringKey n) es" for es
    by (induction es) (auto dest: sameValueZero_object_not_string)
  with assms show ?thesis
    by (simp add: plain_stores_def substitutions_get_def substitutions_set_def Let_def split_beta
          call_get_def call_set_def Map_get_def Map_set_def)
qed

lemma dumpScope_plain_store_empty:
  assumes "plain_stores h" and "dumpScope fuel dumpNode h scope = Some d"
  shows "d_substitutions d = Map.empty"
proof (cases fuel)
  case 0
  with assms(2) show ?thesis by simp
next
  case (Suc n)
  from assms(2) Suc have lt: "scope < length h" by (simp split: if_splits)
  with assms(1) have "own_props (s_substitutions (h ! scope)) = []" by (simp add: plain_stores_def)
  with assms(2) Suc lt show ?thesis
    by (auto simp: Let_def Object_entries_def Object_fromEntries_def split: option.splits)
qed

subsection \<open>Dumping returns when the bound exceeds the number of scopes\<close>

lemma those_map_Some:
  assumes "\<forall>x \<in> set xs. f x \<noteq> None"
  shows "\<exists>ys. those (map f xs) = Some ys"
  using assms
proof (induction xs)
  case Nil
  show ?case by simp
next
  case (Cons x xs)
  then obtain y where y: "f x = Some y" by auto
  from Cons obtain ys where ys: "those (map f xs) = Some ys" by auto
  from y ys show ?case by simp
qed


lemma dumpScope_returns:
  assumes "wf_children h"
  shows "scope < length h \<Longrightarrow> length h - scope \<le> fuel \<Longrightarrow>
         \<exists>d. dumpScope fuel dumpNode h scope = Some d"
proof (induction fuel arbitrary: scope)
  case 0
  then show ?case by simp
next
  case (Suc fuel)
  have "\<forall>c \<in> set (s_children (h ! scope)). dumpScope fuel dumpNode h c \<noteq> None"
  proof
    fix c assume c: "c \<in> set (s_children (h ! scope))"
    with assms Suc.prems(1) have sc: "scope < c" and cl: "c < length h"
      unfolding wf_children_def by blast+
    from sc cl Suc.prems(2) have "length h - c \<le> fuel" by arith
    from Suc.IH[OF cl this] show "dumpScope fuel dumpNode h c \<noteq> None" by blast
  qed
  from those_map_Some[OF this]
  obtain ds where ds: "those (map (dumpScope fuel dumpNode h) (s_children (h ! scope))) = Some ds"
    by blast
  show ?case
    by (subst dumpScope.simps) (simp only: Suc.prems(1) if_True Let_def ds option.case, blast)
qed

lemma wf_children_init: "wf_children (heap init_state)"
  by (simp add: wf_children_def init_state_def)


lemma wf_children_append:
  assumes "wf_children h" and "s_children s = []"
  shows "wf_children (h @ [s])"
  unfolding wf_children_def
proof (intro allI impI ballI)
  fix a c assume a: "a < length (h @ [s])" and c: "c \<in> set (s_children ((h @ [s]) ! a))"
  show "a < c \<and> c < length (h @ [s])"
  proof (cases "a < length h")
    case True
    with c have "c \<in> set (s_children (h ! a))" by (simp add: nth_append)
    with assms(1) True have "a < c \<and> c < length h" unfolding wf_children_def by blast
    then show ?thesis by simp
  next
    case False
    with a have "a = length h" by simp
    then have "(h @ [s]) ! a = s" by simp
    with assms(2) c show ?thesis by simp
  qed
qed


lemma wf_children_createRootScope:
  assumes "wf_children (heap st)"
  shows "wf_children (heap (snd (createRootScope st)))"
proof -
  obtain s where h: "heap (snd (createRootScope st)) = heap st @ [s]" and c: "s_children s = []"
    by (simp add: createRootScope_def Let_def)
  from wf_children_append[OF assms c] h show ?thesis by simp
qed

lemma wf_children_update:
  assumes "wf_children h" and "p < length h"
    and "set (s_children s') \<subseteq> set (s_children (h ! p)) \<union> {c. p < c \<and> c < length h}"
  shows "wf_children (h[p := s'])"
  unfolding wf_children_def
proof (intro allI impI ballI)
  fix a c assume a: "a < length (h[p := s'])" and c: "c \<in> set (s_children (h[p := s'] ! a))"
  from a have a': "a < length h" by simp
  show "a < c \<and> c < length (h[p := s'])"
  proof (cases "a = p")
    case False
    with c have "c \<in> set (s_children (h ! a))" by simp
    with assms(1) a' have "a < c \<and> c < length h" unfolding wf_children_def by blast
    then show ?thesis by simp
  next
    case True
    with c assms(2) have "c \<in> set (s_children s')" by simp
    with assms(3) have "c \<in> set (s_children (h ! p)) \<or> (p < c \<and> c < length h)" by blast
    moreover have "c \<in> set (s_children (h ! p)) \<Longrightarrow> p < c \<and> c < length h"
      using assms(1,2) unfolding wf_children_def by blast
    ultimately have "p < c \<and> c < length h" by blast
    with True show ?thesis by simp
  qed
qed

lemma wf_children_createScope:
  assumes "wf_children (heap st)" and "\<And>p. parent = Some p \<Longrightarrow> p < length (heap st)"
  shows "wf_children (heap (snd (createScope parent st)))"
proof -
  define obj where "obj = \<lparr>s_value = Map.empty, s_children = [], s_parent = parent,
      s_type = Map.empty, s_constraints = [], s_substitutions = new_Map\<rparr>"
  have c: "s_children obj = []" by (simp add: obj_def)
  note h = wf_children_append[OF assms(1) c]
  show ?thesis
  proof (cases parent)
    case None
    then have "heap (snd (createScope parent st)) = heap st @ [obj]"
      by (simp add: createScope_def Let_def obj_def)
    with h show ?thesis by simp
  next
    case (Some p)
    with assms(2) have p: "p < length (heap st)" by simp
    define s' where
      "s' = ((heap st @ [obj]) ! p)\<lparr>s_children := s_children ((heap st @ [obj]) ! p) @ [length (heap st)]\<rparr>"
    from Some have eq: "heap (snd (createScope parent st)) = (heap st @ [obj])[p := s']"
      by (simp add: createScope_def Let_def obj_def s'_def)
    from p have "set (s_children s') \<subseteq>
        set (s_children ((heap st @ [obj]) ! p)) \<union> {c. p < c \<and> c < length (heap st @ [obj])}"
      by (auto simp: s'_def)
    moreover from p have "p < length (heap st @ [obj])" by simp
    ultimately have "wf_children ((heap st @ [obj])[p := s'])"
      using h by (intro wf_children_update)
    with eq show ?thesis by simp
  qed
qed

subsection \<open>Type variables\<close>

text \<open>
  When the lookup of the next \<^verbatim>\<open>t\<close>-name from the scope reports not-found,
  \<^verbatim>\<open>createTypeVariable\<close> returns the InferenceRequired expression of that name and
  registers it in the scope; when the lookup finds something, it throws.
\<close>

lemma createTypeVariable_registers:
  assumes "findTypeSymbol (heap st) (''t'' @ show_nat (nameIds st Prefix_t)) scope = Some None"
  shows "(case createTypeVariable scope st of
            Some (Inr typeExpr, st') \<Rightarrow>
              typeExpr = InferenceRequired (''t'' @ show_nat (nameIds st Prefix_t)) \<and>
              nameIds st' Prefix_t = number_add_one (nameIds st Prefix_t) \<and>
              s_type (heap st' ! scope) (''t'' @ show_nat (nameIds st Prefix_t)) =
                Some \<lparr>t_name = ''t'' @ show_nat (nameIds st Prefix_t),
                      t_type = Some typeExpr, t_scope = scope\<rparr> \<and>
              findTypeSymbol (heap st') (''t'' @ show_nat (nameIds st Prefix_t)) scope =
                Some (Some (Own \<lparr>t_name = ''t'' @ show_nat (nameIds st Prefix_t),
                                  t_type = Some typeExpr, t_scope = scope\<rparr>))
          | _ \<Rightarrow> False)"
proof -
  from assms have lt: "scope < length (heap st)" by (rule findTypeSymbol_in_store)
  show ?thesis
    using assms lt
    by (simp add: createTypeVariable_def findAvailableName_def createTypeSymbol_def Let_def
          findTypeSymbol_own)
qed

lemma createTypeVariable_root_example:
  "findTypeSymbol (heap state_root) (''t'' @ show_nat (nameIds state_root Prefix_t)) 0 = Some None
   \<and> map_option fst (createTypeVariable 0 state_root) = Some (Inr (InferenceRequired ''t0''))
   \<and> findTypeSymbol (heap (snd (the (createTypeVariable 0 state_root)))) ''t0'' 0 =
       Some (Some (Own \<lparr>t_name = ''t0'', t_type = Some (InferenceRequired ''t0''), t_scope = 0\<rparr>))"
proof -
  have n: "nameIds state_root Prefix_t = 0" by (simp add: state_root_eq)
  have s: "''t'' @ show_nat 0 = ''t0''" by (simp add: show_nat_0)
  have h: "findTypeSymbol (heap state_root) (''t'' @ show_nat (nameIds state_root Prefix_t)) 0 = Some None"
    unfolding n s by (rule find_t0_root)
  note reg = createTypeVariable_registers[OF h, unfolded n s]
  show ?thesis
  proof (cases "createTypeVariable 0 state_root")
    case None
    with reg show ?thesis by simp
  next
    case (Some p)
    obtain a st' where p: "p = (a, st')" by (cases p)
    show ?thesis
    proof (cases a)
      case (Inl e)
      with reg Some p show ?thesis by simp
    next
      case (Inr typeExpr)
      with reg Some p h show ?thesis unfolding n s by simp
    qed
  qed
qed

lemma createTypeVariable_taken_name:
  assumes "findTypeSymbol (heap st) (''t'' @ show_nat (nameIds st Prefix_t)) scope = Some (Some x)"
  shows "createTypeVariable scope st =
     Some (Inl (Error (redeclare_message (''t'' @ show_nat (nameIds st Prefix_t)))),
           st\<lparr>nameIds := (nameIds st)(Prefix_t := number_add_one (nameIds st Prefix_t))\<rparr>)"
  using assms
  by (simp add: createTypeVariable_def findAvailableName_def createTypeSymbol_def Let_def)

subsection \<open>The empty name in the Substitution class\<close>

lemma Substitution_empty_name:
  assumes "getTypeExpressionName x = Some []"
  shows "Substitution_set (ObjectKey i x) v m = (m, [ObjectKey i x])
       \<and> Substitution_get (ObjectKey i x) m = None
       \<and> \<not> Substitution_has (ObjectKey i x) m
       \<and> Substitution_set (StringKey []) v m = (m, [StringKey []])
       \<and> Substitution_get (StringKey []) m = None
       \<and> \<not> Substitution_has (StringKey []) m"
  using assms by (simp add: Substitution_set_def Substitution_get_def Substitution_has_def)

section \<open>The claims\<close>

subsection \<open>C1\<close>

text \<open>
  C1 (the code differs): \<^verbatim>\<open>createValueSymbol\<close> should raise the redeclaration error exactly
  when the name is bound in the value table of the scope or of an ancestor. In the state
  after \<^verbatim>\<open>createRootScope()\<close> the root scope has no parent and an empty value table, yet
  \<^verbatim>\<open>createValueSymbol("toString", root, numberType)\<close> throws and
  \<^verbatim>\<open>createTypeSymbol("valueOf", root)\<close> throws as well: the lookup's \<^verbatim>\<open>name in table\<close>
  finds the member inherited from \<^verbatim>\<open>Object.prototype\<close>.
\<close>

theorem createValueSymbol_inherited_name_throws:
  "s_value (heap state_root ! 0) = Map.empty
   \<and> s_parent (heap state_root ! 0) = None
   \<and> createValueSymbol ''toString'' 0 (NativeType ''number'') state_root
       = Some (Inl (Error ''Cannot redeclare variable \"toString\"''), state_root)
   \<and> s_type (heap state_root ! 0) ''valueOf'' = None
   \<and> createTypeSymbol ''valueOf'' 0 None state_root
       = Some (Inl (Error ''Cannot redeclare variable \"valueOf\"''), state_root)"
  by (simp add: state_root_eq createValueSymbol_def createTypeSymbol_def findValueSymbol.simps
        findTypeSymbol.simps js_in_def js_read_def Object_prototype_keys_def redeclare_message_def)

subsection \<open>C2\<close>

text \<open>
  C2 (the code differs): the lookup should report not-found when the name is in no table
  from the scope up to the root. In the state after \<^verbatim>\<open>createRootScope()\<close>, the name
  \<^verbatim>\<open>constructor\<close> is in no table of the parentless root scope, yet \<^verbatim>\<open>findValueSymbol\<close> and
  \<^verbatim>\<open>findTypeSymbol\<close> return the member inherited from \<^verbatim>\<open>Object.prototype\<close>, which is no
  binding of any scope.
\<close>

theorem findValueSymbol_inherited_name_found:
  "s_value (heap state_root ! 0) ''constructor'' = None
   \<and> s_type (heap state_root ! 0) ''constructor'' = None
   \<and> s_parent (heap state_root ! 0) = None
   \<and> findValueSymbol (heap state_root) ''constructor'' 0 = Some (Some (Inherited ''constructor''))
   \<and> findTypeSymbol (heap state_root) ''constructor'' 0 = Some (Some (Inherited ''constructor''))"
  by (simp add: state_root_eq findValueSymbol.simps findTypeSymbol.simps js_in_def js_read_def
        Object_prototype_keys_def)

subsection \<open>C3\<close>

text \<open>
  C3 (the code differs): the substitution store of a created scope should treat a
  type expression named \<^verbatim>\<open>t3\<close> and the string \<^verbatim>\<open>"t3"\<close> as the same key. The scopes made by
  \<^verbatim>\<open>createRootScope\<close> and \<^verbatim>\<open>createScope\<close> hold a \<^verbatim>\<open>new Map()\<close>, not a \<^verbatim>\<open>new Substitution()\<close>:
  after \<^verbatim>\<open>set\<close> under the type expression, \<^verbatim>\<open>get("t3")\<close> is \<^verbatim>\<open>undefined\<close>, and after
  \<^verbatim>\<open>set\<close> under the string, \<^verbatim>\<open>get\<close> under the type expression is \<^verbatim>\<open>undefined\<close>; the same
  in the child scope.
\<close>

theorem scope_substitutions_is_plain_map:
  "map_class (s_substitutions (heap state_root ! 0)) = PlainMap
   \<and> substitutions_get 0 (StringKey ''t3'')
        (fst (substitutions_set 0 (ObjectKey 0 (InferenceRequired ''t3'')) (NativeType ''number'')
           state_root)) = None
   \<and> substitutions_get 0 (ObjectKey 0 (InferenceRequired ''t3''))
        (fst (substitutions_set 0 (StringKey ''t3'') (NativeType ''number'') state_root)) = None
   \<and> map_class (s_substitutions (heap state_child ! 1)) = PlainMap
   \<and> substitutions_get 1 (StringKey ''t3'')
        (fst (substitutions_set 1 (ObjectKey 0 (InferenceRequired ''t3'')) (NativeType ''number'')
           state_child)) = None"
  by (simp add: state_root_eq state_child_eq substitutions_get_def substitutions_set_def
        call_get_def call_set_def new_Map_def Map_set_def Map_get_def)

subsection \<open>C4\<close>

text \<open>
  C4 (the code differs): the dump should list one substitution entry per stored entry.
  After \<^verbatim>\<open>root.substitutions.set("t0", numberType)\<close> the store holds one entry, and the
  \<^verbatim>\<open>substitutions\<close> field of \<^verbatim>\<open>dumpScope(root)\<close> is the empty object: \<^verbatim>\<open>Object.entries\<close>
  of a map object does not enumerate the entries stored with \<^verbatim>\<open>set\<close>.
\<close>

theorem dumpScope_substitutions_empty:
  "substitutions_get 0 (StringKey ''t0'') state_subst = Some (NativeType ''number'')
   \<and> map_data (s_substitutions (heap state_subst ! 0)) = [(StringKey ''t0'', NativeType ''number'')]
   \<and> map_option d_substitutions (dumpScope 1 (\<lambda>t. t) (heap state_subst) 0) = Some Map.empty"
  by (simp add: state_subst_eq substitutions_get_def call_get_def Map_get_def Object_entries_def
        Object_fromEntries_def)

subsection \<open>C5\<close>

text \<open>
  C5: \<^verbatim>\<open>createRootScope()\<close> returns a new scope that has no parent, whose type table has
  exactly the keys \<^verbatim>\<open>string\<close>, \<^verbatim>\<open>number\<close> and \<^verbatim>\<open>boolean\<close>, each bound to a symbol of
  that name whose type is the NativeType expression of that kind, and whose value
  table and constraint list are empty.
\<close>

theorem createRootScope_seeded:
  "(case createRootScope st of (root, st') \<Rightarrow>
      root = length (heap st) \<and> length (heap st') = Suc root \<and>
      (let s = heap st' ! root in
         s_parent s = None \<and>
         dom (s_type s) = {''string'', ''number'', ''boolean''} \<and>
         s_type s ''string'' =
           Some \<lparr>t_name = ''string'', t_type = Some (NativeType ''string''), t_scope = root\<rparr> \<and>
         s_type s ''number'' =
           Some \<lparr>t_name = ''number'', t_type = Some (NativeType ''number''), t_scope = root\<rparr> \<and>
         s_type s ''boolean'' =
           Some \<lparr>t_name = ''boolean'', t_type = Some (NativeType ''boolean''), t_scope = root\<rparr> \<and>
         s_value s = Map.empty \<and>
         s_constraints s = []))"
  by (auto simp add: createRootScope_def createNativeTypeSymbol_def Let_def split: if_splits)

subsection \<open>C6\<close>

text \<open>
  C6 (amended): on the Substitution class, for every type expression \<open>x\<close> that carries a
  non-empty name \<open>n\<close> (held by an object of any identity \<open>i\<close>) and every value \<open>v\<close>:
  after \<^verbatim>\<open>set(x, v)\<close>, \<^verbatim>\<open>get(n)\<close> returns \<open>v\<close> and \<^verbatim>\<open>has(n)\<close> holds; after \<^verbatim>\<open>set(n, v)\<close>,
  \<^verbatim>\<open>get(x)\<close> returns \<open>v\<close> and \<^verbatim>\<open>has(x)\<close> holds; and \<^verbatim>\<open>set\<close>, \<^verbatim>\<open>get\<close> and \<^verbatim>\<open>has\<close> behave
  the same under \<open>x\<close> and under \<open>n\<close>.
\<close>

theorem Substitution_key_normalization:
  assumes "getTypeExpressionName x = Some n" and "n \<noteq> []"
  shows "Substitution_get (StringKey n) (fst (Substitution_set (ObjectKey i x) v m)) = Some v
       \<and> Substitution_get (ObjectKey i x) (fst (Substitution_set (StringKey n) v m)) = Some v
       \<and> Substitution_has (StringKey n) (fst (Substitution_set (ObjectKey i x) v m))
       \<and> Substitution_has (ObjectKey i x) (fst (Substitution_set (StringKey n) v m))
       \<and> Substitution_set (ObjectKey i x) v m = Substitution_set (StringKey n) v m
       \<and> Substitution_get (ObjectKey i x) m = Substitution_get (StringKey n) m
       \<and> Substitution_has (ObjectKey i x) m = Substitution_has (StringKey n) m"
  using assms
  by (simp add: Substitution_set_def Substitution_get_def Substitution_has_def Map_get_def
        Map_set_def Map_has_def data_get_set_same data_has_set_same)

theorem Substitution_key_normalization_witness:
  "getTypeExpressionName (InferenceRequired ''t3'') = Some ''t3'' \<and> ''t3'' \<noteq> []
   \<and> Substitution_get (StringKey ''t3'')
        (fst (Substitution_set (ObjectKey 5 (InferenceRequired ''t3'')) (NativeType ''number'')
           new_Substitution)) = Some (NativeType ''number'')
   \<and> Substitution_get (ObjectKey 5 (InferenceRequired ''t3''))
        (fst (Substitution_set (StringKey ''t3'') (NativeType ''number'') new_Substitution))
      = Some (NativeType ''number'')"
proof -
  have h1: "getTypeExpressionName (InferenceRequired ''t3'') = Some ''t3''" by simp
  have h2: "''t3'' \<noteq> []" by simp
  from Substitution_key_normalization[OF h1 h2, of 5 "NativeType ''number''" new_Substitution] h1 h2
  show ?thesis by blast
qed

text \<open>
  The claim as stated fails for the empty name: the type expression carries the name
  \<^verbatim>\<open>""\<close>, \<^verbatim>\<open>set\<close> under it stores nothing, and \<^verbatim>\<open>get("")\<close> does not return the value.
\<close>

theorem Substitution_empty_name_counterexample:
  "getTypeExpressionName (InferenceRequired '''') = Some ''''
   \<and> Substitution_set (ObjectKey 0 (InferenceRequired '''')) (NativeType ''number'') new_Substitution
       = (new_Substitution, [ObjectKey 0 (InferenceRequired '''')])
   \<and> Substitution_get (StringKey '''')
        (fst (Substitution_set (ObjectKey 0 (InferenceRequired '''')) (NativeType ''number'')
           new_Substitution)) \<noteq> Some (NativeType ''number'')"
  by (simp add: Substitution_set_def Substitution_get_def)

subsection \<open>C7\<close>

text \<open>
  C7: for every type expression \<open>x\<close> that carries no name, \<^verbatim>\<open>Substitution.set(x, v)\<close>
  returns normally with the map unchanged and one diagnostic written,
  \<^verbatim>\<open>Substitution.get(x)\<close> returns \<^verbatim>\<open>undefined\<close> and \<^verbatim>\<open>Substitution.has(x)\<close> returns false.
\<close>

theorem Substitution_nameless_key:
  assumes "getTypeExpressionName x = None"
  shows "Substitution_set (ObjectKey i x) v m = (m, [ObjectKey i x])
       \<and> Substitution_get (ObjectKey i x) m = None
       \<and> \<not> Substitution_has (ObjectKey i x) m"
  using assms by (simp add: Substitution_set_def Substitution_get_def Substitution_has_def)

theorem Substitution_nameless_key_witness:
  "getTypeExpressionName (NativeType ''number'') = None
   \<and> Substitution_set (ObjectKey 2 (NativeType ''number'')) (NativeType ''string'')
        (fst (Substitution_set (StringKey ''t1'') (NativeType ''boolean'') new_Substitution))
      = (fst (Substitution_set (StringKey ''t1'') (NativeType ''boolean'') new_Substitution),
         [ObjectKey 2 (NativeType ''number'')])
   \<and> Substitution_get (ObjectKey 2 (NativeType ''number''))
        (fst (Substitution_set (StringKey ''t1'') (NativeType ''boolean'') new_Substitution)) = None
   \<and> \<not> Substitution_has (ObjectKey 2 (NativeType ''number''))
        (fst (Substitution_set (StringKey ''t1'') (NativeType ''boolean'') new_Substitution))"
proof -
  have h: "getTypeExpressionName (NativeType ''number'') = None" by simp
  from Substitution_nameless_key[OF h] h show ?thesis by simp
qed

subsection \<open>C8\<close>

text \<open>
  C8 (amended): \<^verbatim>\<open>findAvailableName(prefix)\<close> returns \<^verbatim>\<open>t\<close>, respectively \<^verbatim>\<open>fn\<close>, followed
  by the decimal value of that prefix's counter and leaves the scopes alone; while the
  counter is below \<open>2 ^ 53\<close> it adds one to that counter and changes nothing else; both
  counters start at 0; \<open>n\<close> successive calls with one prefix that start at the counter
  value \<open>c\<close> with \<open>c + n \<le> 2 ^ 53 + 1\<close> return \<open>n\<close> pairwise distinct names, which from
  the initial state are the prefix followed by 0, 1, ... in this order.
\<close>

theorem findAvailableName_fresh:
  "fst (findAvailableName Prefix_t st) = ''t'' @ show_nat (nameIds st Prefix_t)
   \<and> fst (findAvailableName Prefix_fn st) = ''fn'' @ show_nat (nameIds st Prefix_fn)
   \<and> heap (snd (findAvailableName p st)) = heap st
   \<and> (nameIds st p < 2 ^ 53 \<longrightarrow>
        snd (findAvailableName p st) = st\<lparr>nameIds := (nameIds st)(p := nameIds st p + 1)\<rparr>)
   \<and> nameIds init_state p = 0
   \<and> length (fst (findAvailableNames n p st)) = n
   \<and> (nameIds st p + n \<le> 2 ^ 53 + 1 \<longrightarrow> distinct (fst (findAvailableNames n p st)))
   \<and> (n \<le> 2 ^ 53 + 1 \<longrightarrow>
        fst (findAvailableNames n Prefix_t init_state) = map (\<lambda>i. ''t'' @ show_nat i) [0 ..< n]
        \<and> fst (findAvailableNames n Prefix_fn init_state) = map (\<lambda>i. ''fn'' @ show_nat i) [0 ..< n])
   \<and> fst (findAvailableNames 12 Prefix_t init_state) =
        [''t0'', ''t1'', ''t2'', ''t3'', ''t4'', ''t5'', ''t6'', ''t7'', ''t8'', ''t9'', ''t10'', ''t11'']
   \<and> fst (findAvailableNames 12 Prefix_fn init_state) =
        [''fn0'', ''fn1'', ''fn2'', ''fn3'', ''fn4'', ''fn5'', ''fn6'', ''fn7'', ''fn8'', ''fn9'', ''fn10'', ''fn11'']"
proof -
  have single: "nameIds st p < 2 ^ 53 \<longrightarrow>
      snd (findAvailableName p st) = st\<lparr>nameIds := (nameIds st)(p := nameIds st p + 1)\<rparr>"
    by (simp add: findAvailableName_def Let_def number_add_one_def)
  have dist: "nameIds st p + n \<le> 2 ^ 53 + 1 \<longrightarrow> distinct (fst (findAvailableNames n p st))"
    by (simp add: findAvailableNames_bounded names_distinct)
  have zero: "nameIds init_state q = 0" for q
    by (simp add: init_state_def)
  have from_init: "m \<le> 2 ^ 53 + 1 \<Longrightarrow>
      fst (findAvailableNames m q init_state) = map (\<lambda>i. prefix_string q @ show_nat i) [0 ..< m]"
    for m q
    using findAvailableNames_bounded[of init_state q m] by (simp add: zero)
  have twelve: "map (\<lambda>i. x @ show_nat i) [0 ..< 12] =
      [x @ ''0'', x @ ''1'', x @ ''2'', x @ ''3'', x @ ''4'', x @ ''5'', x @ ''6'', x @ ''7'',
       x @ ''8'', x @ ''9'', x @ ''10'', x @ ''11'']" for x
    by (simp add: upt_rec[of _ "numeral k" for k] show_nat.simps)
  have t12: "fst (findAvailableNames 12 Prefix_t init_state) =
        [''t0'', ''t1'', ''t2'', ''t3'', ''t4'', ''t5'', ''t6'', ''t7'', ''t8'', ''t9'', ''t10'', ''t11'']"
    using from_init[of 12 Prefix_t] by (simp only: twelve) simp
  have fn12: "fst (findAvailableNames 12 Prefix_fn init_state) =
        [''fn0'', ''fn1'', ''fn2'', ''fn3'', ''fn4'', ''fn5'', ''fn6'', ''fn7'', ''fn8'', ''fn9'', ''fn10'', ''fn11'']"
    using from_init[of 12 Prefix_fn] by (simp only: twelve) simp
  show ?thesis
    using single dist zero[of p] from_init[of n Prefix_t] from_init[of n Prefix_fn] t12 fn12
    by (simp add: findAvailableNames_length)
       (simp add: findAvailableName_def Let_def)
qed

theorem findAvailableName_fresh_witness:
  "nameIds init_state Prefix_fn < 2 ^ 53
   \<and> nameIds init_state Prefix_fn + 3 \<le> 2 ^ 53 + 1
   \<and> (3::nat) \<le> 2 ^ 53 + 1
   \<and> snd (findAvailableName Prefix_fn init_state) =
       init_state\<lparr>nameIds := (nameIds init_state)(Prefix_fn := nameIds init_state Prefix_fn + 1)\<rparr>
   \<and> distinct (fst (findAvailableNames 3 Prefix_fn init_state))
   \<and> fst (findAvailableNames 3 Prefix_fn init_state) = map (\<lambda>i. ''fn'' @ show_nat i) [0 ..< 3]"
proof -
  have h1: "nameIds init_state Prefix_fn < 2 ^ 53" by (simp add: init_state_def)
  have h2: "nameIds init_state Prefix_fn + 3 \<le> 2 ^ 53 + 1" by (simp add: init_state_def)
  have h3: "(3::nat) \<le> 2 ^ 53 + 1" by simp
  from findAvailableName_fresh[of init_state Prefix_fn 3] h1 h2 h3
  show ?thesis by blast
qed

text \<open>
  The claim as stated fails once a counter has reached \<open>2 ^ 53\<close>: the call returns
  \<^verbatim>\<open>t9007199254740992\<close> and leaves the counter as it is, so the next call returns the
  same name.
\<close>

theorem findAvailableName_exhausted_counterexample:
  "nameIds state_exhausted Prefix_t = 2 ^ 53
   \<and> findAvailableName Prefix_t state_exhausted = (''t9007199254740992'', state_exhausted)
   \<and> fst (findAvailableNames 2 Prefix_t state_exhausted) =
        [''t9007199254740992'', ''t9007199254740992'']
   \<and> \<not> distinct (fst (findAvailableNames 2 Prefix_t state_exhausted))"
proof -
  have r: "show_nat (2 ^ 53) = ''9007199254740992''"
    by (simp add: show_nat.simps)
  have c: "nameIds state_exhausted Prefix_t = 2 ^ 53"
    by (simp add: state_exhausted_def)
  have one: "findAvailableName Prefix_t state_exhausted = (''t9007199254740992'', state_exhausted)"
    unfolding findAvailableName_def Let_def c r number_add_one_def
    by (simp add: state_exhausted_def)
  have two: "fst (findAvailableNames 2 Prefix_t state_exhausted) =
        [''t9007199254740992'', ''t9007199254740992'']"
    by (simp add: numeral_2_eq_2 one)
  from c one two show ?thesis by simp
qed

subsection \<open>C9\<close>

text \<open>
  C9 (the code differs): \<^verbatim>\<open>createTypeVariable(s)\<close> should allocate a fresh name for every
  scope \<open>s\<close> and register it in \<open>s\<close>. The name it takes is the next one of the counter,
  whether or not a scope already declares it: after \<^verbatim>\<open>root = createRootScope()\<close> and
  \<^verbatim>\<open>createTypeSymbol("t0", root)\<close> the counter is still 0 and the type symbol \<^verbatim>\<open>t0\<close> of
  the root scope has no type; \<^verbatim>\<open>createTypeVariable(root)\<close> then throws the redeclaration
  error for \<^verbatim>\<open>t0\<close>, returns no type expression, and leaves the symbol as it was.
\<close>

theorem createTypeVariable_taken_name_throws:
  "nameIds state_t0 Prefix_t = 0
   \<and> s_type (heap state_t0 ! 0) ''t0'' = Some \<lparr>t_name = ''t0'', t_type = None, t_scope = 0\<rparr>
   \<and> createTypeVariable 0 state_t0 =
       Some (Inl (Error ''Cannot redeclare variable \"t0\"''),
             state_t0\<lparr>nameIds := (nameIds state_t0)(Prefix_t := 1)\<rparr>)
   \<and> findTypeSymbol (heap (snd (the (createTypeVariable 0 state_t0)))) ''t0'' 0 =
       Some (Some (Own \<lparr>t_name = ''t0'', t_type = None, t_scope = 0\<rparr>))"
  by (simp add: state_t0_eq createTypeVariable_def findAvailableName_def createTypeSymbol_def
        findTypeSymbol.simps js_in_def js_read_def redeclare_message_def show_nat_0
        number_add_one_def)

subsection \<open>C10\<close>

text \<open>
  C10: when \<^verbatim>\<open>createValueSymbol\<close> or \<^verbatim>\<open>createTypeSymbol\<close> throws, the state it leaves is the
  state it was called in: the whole store (every table, constraint list and
  substitution store of every scope) and the counters are unchanged.
\<close>

theorem create_symbol_throw_unchanged:
  "(createValueSymbol name scope type st = Some (Inl e, st') \<longrightarrow> st' = st)
   \<and> (createTypeSymbol name' scope' type' st = Some (Inl e', st'') \<longrightarrow> st'' = st)"
  by (auto simp: createValueSymbol_def createTypeSymbol_def Let_def split: option.splits if_splits)

theorem create_symbol_throw_unchanged_witness:
  "(\<exists>e. map_option fst (createValueSymbol ''x'' 1 (NativeType ''string'') state_x) = Some (Inl e))
   \<and> (\<exists>e. map_option fst (createTypeSymbol ''string'' 1 None state_x) = Some (Inl e))
   \<and> map_option snd (createValueSymbol ''x'' 1 (NativeType ''string'') state_x) = Some state_x
   \<and> map_option snd (createTypeSymbol ''string'' 1 None state_x) = Some state_x"
proof -
  obtain e st' where v: "createValueSymbol ''x'' 1 (NativeType ''string'') state_x = Some (Inl e, st')"
    by (simp add: createValueSymbol_def state_x_eq findValueSymbol.simps js_in_def js_read_def)
  obtain e' st'' where t: "createTypeSymbol ''string'' 1 None state_x = Some (Inl e', st'')"
    by (simp add: createTypeSymbol_def state_x_eq findTypeSymbol.simps js_in_def js_read_def
          Object_prototype_keys_def)
  from create_symbol_throw_unchanged[of "''x''" 1 "NativeType ''string''" state_x e st'
      "''string''" 1 None e' st''] v t
  show ?thesis by simp
qed

end
